theory Spec2Isabelle
  imports Main "HOL-Library.Word"
begin

section \<open>C strings\<close>

text \<open>
  A HOL \<open>string\<close> stands for the bytes of a \<open>char\<close> buffer. The C string held by a
  buffer is the run of bytes before its first NUL byte, which is what \<open>strdup\<close>,
  \<open>strndup\<close>, \<open>strlen\<close>, \<open>strcat\<close> and \<open>strcmp\<close> of the C library look at.
\<close>

definition c_str :: "string \<Rightarrow> string" where
  "c_str buf = takeWhile (\<lambda>c. c \<noteq> CHR 0x00) buf"

definition strdup :: "string \<Rightarrow> string" where
  "strdup s = c_str s"

definition strndup :: "string \<Rightarrow> nat \<Rightarrow> string" where
  "strndup s n = c_str (take n s)"

definition strlen :: "string \<Rightarrow> nat" where
  "strlen s = length (c_str s)"

definition strcat :: "string \<Rightarrow> string \<Rightarrow> string" where
  "strcat dest src = c_str dest @ c_str src"

text \<open>\<open>strcmp_eq a b\<close> is the test \<open>strcmp(a, b) == 0\<close>.\<close>

definition strcmp_eq :: "string \<Rightarrow> string \<Rightarrow> bool" where
  "strcmp_eq a b = (c_str a = c_str b)"

section \<open>Values, AST nodes and results (yalisp.h, lines 30--191)\<close>

text \<open>
  \<open>int\<close> is a 32-bit machine integer; arithmetic on it wraps around (the spec's stated
  policy for the reference implementation).
\<close>

type_synonym c_int = "32 word"

datatype lisp_value = Value_int c_int | Value_string string

definition create_int_value :: "c_int \<Rightarrow> lisp_value" where
  "create_int_value int_value = Value_int int_value"

definition create_string_value :: "string \<Rightarrow> lisp_value" where
  "create_string_value s = Value_string (strdup s)"

datatype ast_node =
    Node_int c_int
  | Node_symbol string
  | Node_string string
  | Node_list "ast_node list"

definition create_int_node :: "c_int \<Rightarrow> ast_node" where
  "create_int_node v = Node_int v"

definition create_symbol_node :: "string \<Rightarrow> ast_node" where
  "create_symbol_node s = Node_symbol (strdup s)"

definition create_string_node :: "string \<Rightarrow> ast_node" where
  "create_string_node s = Node_string (strdup s)"

text \<open>The \<open>length\<close> field of a list node is the length of \<open>items\<close>.\<close>

definition create_list_node :: "ast_node list \<Rightarrow> ast_node" where
  "create_list_node items = Node_list items"

datatype result = Result_value lisp_value | Result_error string

definition create_success_result :: "lisp_value \<Rightarrow> result" where
  "create_success_result val = Result_value val"

definition create_error_result :: "string \<Rightarrow> result" where
  "create_error_result message = Result_error (strdup message)"

datatype parse_result = Parse_node ast_node | Parse_error string

definition create_parse_success :: "ast_node \<Rightarrow> parse_result" where
  "create_parse_success node = Parse_node node"

definition create_parse_error :: "string \<Rightarrow> parse_result" where
  "create_parse_error message = Parse_error (strdup message)"

section \<open>The parser (yalisp.h, lines 194--256)\<close>

text \<open>
  \<open>parse\<close> is handed a pointer to a NUL-terminated buffer and a cursor. The buffer is
  \<open>input\<close> followed by the terminating NUL byte, so \<open>input[pos]\<close> is a byte of
  \<open>input\<close> for \<open>pos < length input\<close> and NUL for \<open>pos = length input\<close>. A read at a
  larger index is outside the object: the behaviour of the C program is undefined there,
  and the model returns \<open>None\<close>.
\<close>

definition char_at :: "string \<Rightarrow> nat \<Rightarrow> char option" where
  "char_at input pos =
     (if pos < length input then Some (input ! pos)
      else if pos = length input then Some (CHR 0x00)
      else None)"

definition is_space :: "char \<Rightarrow> bool" where
  "is_space c = (c = CHR '' '' \<or> c = CHR 0x0A \<or> c = CHR 0x09)"

definition is_digit :: "char \<Rightarrow> bool" where
  "is_digit c = (of_char (CHR ''0'') \<le> (of_char c :: nat) \<and> (of_char c :: nat) \<le> of_char (CHR ''9''))"

definition digit_of :: "char \<Rightarrow> c_int" where
  "digit_of c = of_nat (of_char c - of_char (CHR ''0''))"

text \<open>Line 195: \<open>while (input[*pos] == ' ' || input[*pos] == '\n' || input[*pos] == '\t') (*pos)++;\<close>\<close>

function skip_whitespace :: "string \<Rightarrow> nat \<Rightarrow> nat option" where
  "skip_whitespace input pos =
     (case char_at input pos of
        None \<Rightarrow> None
      | Some c \<Rightarrow> if is_space c then skip_whitespace input (Suc pos) else Some pos)"
  by pat_completeness auto
termination
  by (relation "measure (\<lambda>(input, pos). Suc (length input) - pos)")
     (auto simp: char_at_def split: if_splits)

declare skip_whitespace.simps [simp del]

text \<open>Lines 228--231: the digit loop, \<open>value = value * 10 + (input[*pos] - '0')\<close>.\<close>

function parse_digits :: "string \<Rightarrow> nat \<Rightarrow> c_int \<Rightarrow> (c_int \<times> nat) option" where
  "parse_digits input pos v =
     (case char_at input pos of
        None \<Rightarrow> None
      | Some c \<Rightarrow>
          if is_digit c then parse_digits input (Suc pos) (v * 10 + digit_of c)
          else Some (v, pos))"
  by pat_completeness auto
termination
  by (relation "measure (\<lambda>(input, pos, v). Suc (length input) - pos)")
     (auto simp: char_at_def split: if_splits)

declare parse_digits.simps [simp del]

text \<open>Lines 236--237: \<open>while (input[*pos] != '"' && input[*pos] != '\0') (*pos)++;\<close>\<close>

function scan_string :: "string \<Rightarrow> nat \<Rightarrow> nat option" where
  "scan_string input pos =
     (case char_at input pos of
        None \<Rightarrow> None
      | Some c \<Rightarrow>
          if c \<noteq> CHR 0x22 \<and> c \<noteq> CHR 0x00 then scan_string input (Suc pos)
          else Some pos)"
  by pat_completeness auto
termination
  by (relation "measure (\<lambda>(input, pos). Suc (length input) - pos)")
     (auto simp: char_at_def split: if_splits)

declare scan_string.simps [simp del]

text \<open>
  Lines 247--250: the symbol loop stops at a space, \<open>)\<close>, newline or tab only. It does
  not stop at NUL, nor at \<open>(\<close>.
\<close>

definition symbol_char :: "char \<Rightarrow> bool" where
  "symbol_char c = (c \<noteq> CHR '' '' \<and> c \<noteq> CHR '')'' \<and> c \<noteq> CHR 0x0A \<and> c \<noteq> CHR 0x09)"

function scan_symbol :: "string \<Rightarrow> nat \<Rightarrow> nat option" where
  "scan_symbol input pos =
     (case char_at input pos of
        None \<Rightarrow> None
      | Some c \<Rightarrow> if symbol_char c then scan_symbol input (Suc pos) else Some pos)"
  by pat_completeness auto
termination
  by (relation "measure (\<lambda>(input, pos). Suc (length input) - pos)")
     (auto simp: char_at_def split: if_splits)

declare scan_symbol.simps [simp del]

text \<open>
  \<open>parse input pos\<close> returns the \<open>parse_result\<close> together with the final value of
  \<open>*pos\<close>. \<open>parse_list_items\<close> is the loop of lines 203--214 with what follows it
  (lines 216--225); \<open>items\<close> are the children read so far.
\<close>

function parse :: "string \<Rightarrow> nat \<Rightarrow> (parse_result \<times> nat) option"
  and parse_list_items :: "string \<Rightarrow> nat \<Rightarrow> ast_node list \<Rightarrow> (parse_result \<times> nat) option"
where
  "parse input pos0 =
     (case skip_whitespace input pos0 of
        None \<Rightarrow> None
      | Some pos \<Rightarrow>
         (case char_at input pos of
            None \<Rightarrow> None
          | Some c \<Rightarrow>
              if c = CHR ''('' then parse_list_items input (Suc pos) []
              else if is_digit c then
                (case parse_digits input pos 0 of
                   None \<Rightarrow> None
                 | Some (v, pos') \<Rightarrow> Some (create_parse_success (create_int_node v), pos'))
              else if c = CHR 0x22 then
                (case scan_string input (Suc pos) of
                   None \<Rightarrow> None
                 | Some pos' \<Rightarrow>
                    (case char_at input pos' of
                       None \<Rightarrow> None
                     | Some c' \<Rightarrow>
                         if c' = CHR 0x00
                         then Some (create_parse_error ''Unterminated string literal in input'', pos')
                         else Some (create_parse_success
                                (create_string_node (strndup (drop (Suc pos) input) (pos' - Suc pos))),
                              Suc pos')))
              else if c \<noteq> CHR 0x00 then
                (case scan_symbol input pos of
                   None \<Rightarrow> None
                 | Some pos' \<Rightarrow>
                     Some (create_parse_success
                        (create_symbol_node (strndup (drop pos input) (pos' - pos))), pos'))
              else Some (create_parse_error ''Unexpected end of input'', pos)))"
| "parse_list_items input pos items =
     (case char_at input pos of
        None \<Rightarrow> None
      | Some c \<Rightarrow>
          if c \<noteq> CHR '')'' \<and> c \<noteq> CHR 0x00 then
            (case parse input pos of
               None \<Rightarrow> None
             | Some (sub_result, pos') \<Rightarrow>
                 (case sub_result of
                    Parse_error m \<Rightarrow> Some (sub_result, pos')
                  | Parse_node node \<Rightarrow> parse_list_items input pos' (items @ [node])))
          else if c = CHR 0x00 then Some (create_parse_error ''Unmatched '(' in input'', pos)
          else Some (create_parse_success (create_list_node items), Suc pos))"
  by pat_completeness auto

text \<open>
  Each loop, unfolded once. The nested call of \<open>parse_list_items\<close> terminates because a
  successful \<open>parse\<close> started at a byte other than \<open>)\<close> and NUL moves the cursor forward.
\<close>

lemma skip_whitespace_step:
  "char_at input pos = Some c \<Longrightarrow> is_space c \<Longrightarrow> skip_whitespace input pos = skip_whitespace input (Suc pos)"
  by (subst skip_whitespace.simps) simp

lemma skip_whitespace_stop:
  "char_at input pos = Some c \<Longrightarrow> \<not> is_space c \<Longrightarrow> skip_whitespace input pos = Some pos"
  by (subst skip_whitespace.simps) simp

lemma skip_whitespace_None:
  "char_at input pos = None \<Longrightarrow> skip_whitespace input pos = None"
  by (subst skip_whitespace.simps) simp

lemma parse_digits_step:
  "char_at input pos = Some c \<Longrightarrow> is_digit c \<Longrightarrow>
   parse_digits input pos v = parse_digits input (Suc pos) (v * 10 + digit_of c)"
  by (subst parse_digits.simps) simp

lemma parse_digits_stop:
  "char_at input pos = Some c \<Longrightarrow> \<not> is_digit c \<Longrightarrow> parse_digits input pos v = Some (v, pos)"
  by (subst parse_digits.simps) simp

lemma parse_digits_None:
  "char_at input pos = None \<Longrightarrow> parse_digits input pos v = None"
  by (subst parse_digits.simps) simp

lemma scan_string_step:
  "char_at input pos = Some c \<Longrightarrow> c \<noteq> CHR 0x22 \<Longrightarrow> c \<noteq> CHR 0x00 \<Longrightarrow>
   scan_string input pos = scan_string input (Suc pos)"
  by (subst scan_string.simps) simp

lemma scan_string_stop:
  "char_at input pos = Some c \<Longrightarrow> c = CHR 0x22 \<or> c = CHR 0x00 \<Longrightarrow> scan_string input pos = Some pos"
  by (subst scan_string.simps) auto

lemma scan_string_None:
  "char_at input pos = None \<Longrightarrow> scan_string input pos = None"
  by (subst scan_string.simps) simp

lemma scan_symbol_step:
  "char_at input pos = Some c \<Longrightarrow> symbol_char c \<Longrightarrow>
   scan_symbol input pos = scan_symbol input (Suc pos)"
  by (subst scan_symbol.simps) (simp add: symbol_char_def)

lemma scan_symbol_stop:
  "char_at input pos = Some c \<Longrightarrow> \<not> symbol_char c \<Longrightarrow> scan_symbol input pos = Some pos"
  by (subst scan_symbol.simps) (auto simp: symbol_char_def)

lemma scan_symbol_None:
  "char_at input pos = None \<Longrightarrow> scan_symbol input pos = None"
  by (subst scan_symbol.simps) simp

lemma skip_whitespace_le: "skip_whitespace input pos = Some p \<Longrightarrow> pos \<le> p"
proof (induction input pos rule: skip_whitespace.induct)
  case (1 input pos)
  show ?case
  proof (cases "char_at input pos")
    case None
    with 1 show ?thesis by (simp add: skip_whitespace_None)
  next
    case (Some c)
    show ?thesis
    proof (cases "is_space c")
      case True
      with 1 Some have "Suc pos \<le> p" by (simp add: skip_whitespace_step)
      then show ?thesis by simp
    next
      case False
      with 1 Some show ?thesis by (simp add: skip_whitespace_stop)
    qed
  qed
qed

lemma parse_digits_le: "parse_digits input pos v = Some (v', p) \<Longrightarrow> pos \<le> p"
proof (induction input pos v rule: parse_digits.induct)
  case (1 input pos v)
  show ?case
  proof (cases "char_at input pos")
    case None
    with 1 show ?thesis by (simp add: parse_digits_None)
  next
    case (Some c)
    show ?thesis
    proof (cases "is_digit c")
      case True
      with 1 Some have "Suc pos \<le> p" by (simp add: parse_digits_step)
      then show ?thesis by simp
    next
      case False
      with 1 Some show ?thesis by (simp add: parse_digits_stop)
    qed
  qed
qed

lemma scan_string_le: "scan_string input pos = Some p \<Longrightarrow> pos \<le> p"
proof (induction input pos rule: scan_string.induct)
  case (1 input pos)
  show ?case
  proof (cases "char_at input pos")
    case None
    with 1 show ?thesis by (simp add: scan_string_None)
  next
    case (Some c)
    show ?thesis
    proof (cases "c \<noteq> CHR 0x22 \<and> c \<noteq> CHR 0x00")
      case True
      with 1 Some have "Suc pos \<le> p" by (simp add: scan_string_step)
      then show ?thesis by simp
    next
      case False
      with 1 Some show ?thesis by (auto simp: scan_string_stop)
    qed
  qed
qed

lemma scan_symbol_le: "scan_symbol input pos = Some p \<Longrightarrow> pos \<le> p"
proof (induction input pos rule: scan_symbol.induct)
  case (1 input pos)
  show ?case
  proof (cases "char_at input pos")
    case None
    with 1 show ?thesis by (simp add: scan_symbol_None)
  next
    case (Some c)
    show ?thesis
    proof (cases "symbol_char c")
      case True
      with 1 Some have "Suc pos \<le> p" by (simp add: scan_symbol_step)
      then show ?thesis by simp
    next
      case False
      with 1 Some show ?thesis by (simp add: scan_symbol_stop)
    qed
  qed
qed

lemma parse_digits_lt:
  "parse_digits input pos v = Some (v', p) \<Longrightarrow> char_at input pos = Some c \<Longrightarrow> is_digit c \<Longrightarrow> pos < p"
  using parse_digits_le [of input "Suc pos" "v * 10 + digit_of c" v' p]
  by (simp add: parse_digits_step)

lemma scan_symbol_lt:
  "scan_symbol input pos = Some p \<Longrightarrow> char_at input pos = Some c \<Longrightarrow> symbol_char c \<Longrightarrow> pos < p"
  using scan_symbol_le [of input "Suc pos" p]
  by (simp add: scan_symbol_step)


lemma skip_whitespace_not_space:
  "skip_whitespace input pos = Some p \<Longrightarrow> \<exists>c. char_at input p = Some c \<and> \<not> is_space c"
proof (induction input pos rule: skip_whitespace.induct)
  case (1 input pos)
  show ?case
  proof (cases "char_at input pos")
    case None
    with 1 show ?thesis by (simp add: skip_whitespace_None)
  next
    case (Some c)
    show ?thesis
    proof (cases "is_space c")
      case True
      with 1 Some show ?thesis by (simp add: skip_whitespace_step)
    next
      case False
      with 1 Some show ?thesis by (auto simp: skip_whitespace_stop)
    qed
  qed
qed

lemma skip_whitespace_lt:
  "skip_whitespace input pos = Some p \<Longrightarrow> char_at input pos = Some c \<Longrightarrow> is_space c \<Longrightarrow> pos < p"
  using skip_whitespace_le [of input "Suc pos" p]
  by (simp add: skip_whitespace_step)

lemma parse_progress:
  "parse_parse_list_items_dom (Inl (input, pos)) \<Longrightarrow> parse input pos = Some (r, p) \<Longrightarrow>
     pos \<le> p \<and> (\<forall>c node. r = Parse_node node \<longrightarrow> char_at input pos = Some c \<longrightarrow> c \<noteq> CHR '')'' \<longrightarrow> c \<noteq> CHR 0x00 \<longrightarrow> pos < p)"
  "parse_parse_list_items_dom (Inr (input, pos, items)) \<Longrightarrow> parse_list_items input pos items = Some (r, p) \<Longrightarrow> pos \<le> p"
proof (induction input pos and input pos items arbitrary: r p and r p rule: parse_parse_list_items.pinduct)
  case (1 input pos0)
  from "1.prems" "1.hyps" obtain pos where sk: "skip_whitespace input pos0 = Some pos"
    by (auto simp: parse.psimps split: option.splits)
  from skip_whitespace_not_space [OF sk] obtain c
    where c: "char_at input pos = Some c" and nsp: "\<not> is_space c" by blast
  note le0 = skip_whitespace_le [OF sk]
  from "1.prems" "1.hyps" sk c have body:
    "(if c = CHR ''('' then parse_list_items input (Suc pos) []
      else if is_digit c then
        (case parse_digits input pos 0 of
           None \<Rightarrow> None
         | Some (v, pos') \<Rightarrow> Some (create_parse_success (create_int_node v), pos'))
      else if c = CHR 0x22 then
        (case scan_string input (Suc pos) of
           None \<Rightarrow> None
         | Some pos' \<Rightarrow>
            (case char_at input pos' of
               None \<Rightarrow> None
             | Some c' \<Rightarrow>
                 if c' = CHR 0x00
                 then Some (create_parse_error ''Unterminated string literal in input'', pos')
                 else Some (create_parse_success
                        (create_string_node (strndup (drop (Suc pos) input) (pos' - Suc pos))),
                      Suc pos')))
      else if c \<noteq> CHR 0x00 then
        (case scan_symbol input pos of
           None \<Rightarrow> None
         | Some pos' \<Rightarrow>
             Some (create_parse_success
                (create_symbol_node (strndup (drop pos input) (pos' - pos))), pos'))
      else Some (create_parse_error ''Unexpected end of input'', pos)) = Some (r, p)"
    by (simp add: parse.psimps)
  have A: "pos \<le> p \<and> ((\<exists>node. r = Parse_node node) \<longrightarrow> c \<noteq> CHR '')'' \<longrightarrow> c \<noteq> CHR 0x00 \<longrightarrow> pos < p)"
  proof (cases "c = CHR ''(''")
    case True
    with body have "parse_list_items input (Suc pos) [] = Some (r, p)" by simp
    from "1.IH" [OF sk c True this] show ?thesis by simp
  next
    case nparen: False
    show ?thesis
    proof (cases "is_digit c")
      case True
      with body nparen c show ?thesis
        by (auto split: option.splits dest: parse_digits_lt)
    next
      case ndigit: False
      show ?thesis
      proof (cases "c = CHR 0x22")
        case True
        with body nparen ndigit show ?thesis
          by (auto split: option.splits if_splits dest: scan_string_le simp: create_parse_error_def)
      next
        case nquote: False
        show ?thesis
        proof (cases "c = CHR 0x00")
          case True
          with body nparen ndigit nquote show ?thesis by (auto simp: create_parse_error_def)
        next
          case False
          with body nparen ndigit nquote obtain pos' where
            ss: "scan_symbol input pos = Some pos'" and p: "p = pos'"
            by (auto split: option.splits)
          have "c \<noteq> CHR '')'' \<Longrightarrow> pos < p"
            using scan_symbol_lt [OF ss c] nsp p by (simp add: symbol_char_def is_space_def)
          with scan_symbol_le [OF ss] p show ?thesis by auto
        qed
      qed
    qed
  qed
  show ?case
  proof (intro conjI allI impI)
    from A le0 show "pos0 \<le> p" by simp
  next
    fix c0 node
    assume r: "r = Parse_node node" and c0: "char_at input pos0 = Some c0"
      and n1: "c0 \<noteq> CHR '')''" and n2: "c0 \<noteq> CHR 0x00"
    show "pos0 < p"
    proof (cases "is_space c0")
      case True
      from skip_whitespace_lt [OF sk c0 True] A show ?thesis by simp
    next
      case False
      with sk c0 have "pos = pos0" by (simp add: skip_whitespace_stop)
      with A r c c0 n1 n2 show ?thesis by simp
    qed
  qed
next
  case (2 input pos items)
  from "2.prems" "2.hyps" obtain c where c: "char_at input pos = Some c"
    by (auto simp: parse_list_items.psimps split: option.splits)
  show ?case
  proof (cases "c \<noteq> CHR '')'' \<and> c \<noteq> CHR 0x00")
    case True
    with "2.prems" "2.hyps" c obtain sub_result pos' where
      sub: "parse input pos = Some (sub_result, pos')"
      by (auto simp: parse_list_items.psimps split: option.splits)
    from "2.IH"(1) [OF c True sub] have le: "pos \<le> pos'" by simp
    show ?thesis
    proof (cases sub_result)
      case (Parse_error m)
      with "2.prems" "2.hyps" c True sub le show ?thesis
        by (simp add: parse_list_items.psimps)
    next
      case (Parse_node node)
      with "2.prems" "2.hyps" c True sub
      have "parse_list_items input pos' (items @ [node]) = Some (r, p)"
        by (simp add: parse_list_items.psimps)
      from "2.IH"(2) [OF c True sub refl Parse_node this] le show ?thesis by simp
    qed
  next
    case False
    with "2.prems" "2.hyps" c show ?thesis
      by (auto simp: parse_list_items.psimps split: if_splits)
  qed
qed

termination parse
proof (relation "measure (\<lambda>x. case x of
          Inl (input, pos) \<Rightarrow> 2 * (Suc (length input) - pos)
        | Inr (input, pos, items) \<Rightarrow> 2 * (Suc (length input) - pos) + 1)", goal_cases)
  case 1
  show ?case by simp
next
  case (2 input pos0 pos c)
  then show ?case
    using skip_whitespace_le [of input pos0 pos]
    by (auto simp: char_at_def split: if_splits)
next
  case (3 input pos items c)
  then show ?case by simp
next
  case (4 input pos items c x2 sub_result pos' node)
  then show ?case
    using parse_progress(1) [of input pos sub_result pos']
    by (auto simp: char_at_def split: if_splits)
qed

declare parse.simps [simp del] parse_list_items.simps [simp del]

section \<open>The evaluator (yalisp.h, lines 258--349)\<close>

text \<open>
  \<open>eval_ast_node\<close> returns \<open>None\<close> where the C function reads outside an object (the
  operator \<open>-\<close> reads \<open>items[1]\<close> without looking at the length of the list). The loops
  over \<open>items[1..]\<close> are recursions over the remaining children:
  \<^item> \<open>eval_plus_args\<close>: lines 279--292, with the running \<open>sum\<close>;
  \<^item> \<open>eval_minus_args\<close>: lines 305--318, with the running \<open>diff\<close>;
  \<^item> \<open>eval_concat_lengths\<close>: lines 321--331, which returns early with a result
    (\<open>Inl\<close>) or ends with \<open>total_length\<close> (\<open>Inr\<close>);
  \<^item> \<open>eval_concat_strings\<close>: lines 336--340, which evaluates every child a second time
    and appends its string to \<open>result_string\<close>, a buffer of \<open>total_length + 1\<close> bytes;
    it reads \<open>result_value.string_value\<close> without a check, which is defined only for
    a string value.
\<close>

function eval_ast_node :: "ast_node \<Rightarrow> result option"
  and eval_plus_args :: "ast_node list \<Rightarrow> c_int \<Rightarrow> result option"
  and eval_minus_args :: "ast_node list \<Rightarrow> c_int \<Rightarrow> result option"
  and eval_concat_lengths :: "ast_node list \<Rightarrow> nat \<Rightarrow> (result + nat) option"
  and eval_concat_strings :: "ast_node list \<Rightarrow> nat \<Rightarrow> string \<Rightarrow> string option"
where
  "eval_ast_node (Node_int v) = Some (create_success_result (create_int_value v))"
| "eval_ast_node (Node_string s) = Some (create_success_result (create_string_value s))"
| "eval_ast_node (Node_symbol s) = Some (create_error_result ''Cannot evaluate a standalone symbol'')"
| "eval_ast_node (Node_list []) = Some (create_error_result ''Cannot evaluate an empty list'')"
| "eval_ast_node (Node_list (op # args)) =
     (case op of
        Node_symbol name \<Rightarrow>
          if strcmp_eq name ''+'' then eval_plus_args args 0
          else if strcmp_eq name ''-'' then
            (case args of
               [] \<Rightarrow> None
             | a # rest \<Rightarrow>
                 (case eval_ast_node a of
                    None \<Rightarrow> None
                  | Some (Result_error m) \<Rightarrow> Some (Result_error m)
                  | Some (Result_value (Value_string s)) \<Rightarrow>
                      Some (create_error_result ''Non-integer argument to +'')
                  | Some (Result_value (Value_int diff)) \<Rightarrow> eval_minus_args rest diff))
          else if strcmp_eq name ''concat'' then
            (case eval_concat_lengths args 0 of
               None \<Rightarrow> None
             | Some (Inl early) \<Rightarrow> Some early
             | Some (Inr total_length) \<Rightarrow>
                 (case eval_concat_strings args total_length [] of
                    None \<Rightarrow> None
                  | Some result_string \<Rightarrow>
                      Some (create_success_result (create_string_value result_string))))
          else Some (create_error_result ''Unknown operator'')
      | _ \<Rightarrow> Some (create_error_result ''First element of a list must be a symbol (operator)''))"
| "eval_plus_args [] acc = Some (create_success_result (create_int_value acc))"
| "eval_plus_args (a # rest) acc =
     (case eval_ast_node a of
        None \<Rightarrow> None
      | Some (Result_error m) \<Rightarrow> Some (Result_error m)
      | Some (Result_value (Value_string s)) \<Rightarrow>
          Some (create_error_result ''Non-integer argument to +'')
      | Some (Result_value (Value_int v)) \<Rightarrow> eval_plus_args rest (acc + v))"
| "eval_minus_args [] diff = Some (create_success_result (create_int_value diff))"
| "eval_minus_args (a # rest) diff =
     (case eval_ast_node a of
        None \<Rightarrow> None
      | Some (Result_error m) \<Rightarrow> Some (Result_error m)
      | Some (Result_value (Value_string s)) \<Rightarrow>
          Some (create_error_result ''Non-integer argument to +'')
      | Some (Result_value (Value_int v)) \<Rightarrow> eval_minus_args rest (diff - v))"
| "eval_concat_lengths [] total_length = Some (Inr total_length)"
| "eval_concat_lengths (a # rest) total_length =
     (case eval_ast_node a of
        None \<Rightarrow> None
      | Some (Result_error m) \<Rightarrow> Some (Inl (Result_error m))
      | Some (Result_value (Value_int v)) \<Rightarrow>
          Some (Inl (create_error_result ''Non-string argument to concat''))
      | Some (Result_value (Value_string s)) \<Rightarrow>
          eval_concat_lengths rest (total_length + strlen s))"
| "eval_concat_strings [] total_length result_string = Some result_string"
| "eval_concat_strings (a # rest) total_length result_string =
     (case eval_ast_node a of
        Some (Result_value (Value_string s)) \<Rightarrow>
          if length (strcat result_string s) \<le> total_length
          then eval_concat_strings rest total_length (strcat result_string s)
          else None
      | _ \<Rightarrow> None)"
  by pat_completeness auto
termination
  by lexicographic_order

section \<open>Notions used to state the properties\<close>

text \<open>
  The decimal text of a natural number, as \<open>printf("%d")\<close> writes it (the text of the
  integer literals the round trip is about), and the value the digit loop of \<open>parse\<close>
  accumulates over a run of digits.
\<close>

fun decimal :: "nat \<Rightarrow> string" where
  "decimal n =
     (if n < 10 then [char_of (48 + n)]
      else decimal (n div 10) @ [char_of (48 + n mod 10)])"

declare decimal.simps [simp del]

definition digits_value :: "c_int \<Rightarrow> string \<Rightarrow> c_int" where
  "digits_value v ds = foldl (\<lambda>a c. a * 10 + digit_of c) v ds"

text \<open>
  A child of a list evaluates to an integer, or to a string: \<open>eval_ast_node\<close> returns a
  success result holding that value.
\<close>

definition evaluates_to_int :: "ast_node \<Rightarrow> c_int \<Rightarrow> bool" where
  "evaluates_to_int a v = (eval_ast_node a = Some (Result_value (Value_int v)))"

definition evaluates_to_string :: "ast_node \<Rightarrow> string \<Rightarrow> bool" where
  "evaluates_to_string a s = (eval_ast_node a = Some (Result_value (Value_string s)))"

text \<open>
  The texts of the symbol nodes of a tree. \<open>symbol_span input s p q\<close> says how the text
  \<open>s\<close> of a symbol lies in the input: it is the run of bytes from \<open>p\<close> up to \<open>q\<close>, every
  byte of it is none of space, tab, newline and \<open>)\<close>, it does not begin with \<open>(\<close>, it is
  empty only when the byte at \<open>p\<close> is a \<open>)\<close>, and the byte at \<open>q\<close>, after the run, is a
  space, a tab, a newline, a \<open>)\<close> or the NUL that ends the input.
\<close>

fun symbols_of :: "ast_node \<Rightarrow> string list" where
  "symbols_of (Node_symbol s) = [s]"
| "symbols_of (Node_list items) = concat (map symbols_of items)"
| "symbols_of (Node_int v) = []"
| "symbols_of (Node_string s) = []"

definition symbol_span :: "string \<Rightarrow> string \<Rightarrow> nat \<Rightarrow> nat \<Rightarrow> bool" where
  "symbol_span input s p q =
     (s = strndup (drop p input) (q - p)
      \<and> list_all symbol_char s
      \<and> (case s of [] \<Rightarrow> char_at input p = Some (CHR '')'') | c # _ \<Rightarrow> c \<noteq> CHR ''('')
      \<and> (case char_at input q of
            None \<Rightarrow> False
          | Some c \<Rightarrow> c = CHR '' '' \<or> c = CHR 0x09 \<or> c = CHR 0x0A \<or> c = CHR '')''
                     \<or> c = CHR 0x00))"

definition symbols_spanned :: "string \<Rightarrow> ast_node \<Rightarrow> bool" where
  "symbols_spanned input node =
     list_all (\<lambda>s. \<exists>q\<le>length input. \<exists>p\<le>q. symbol_span input s p q) (symbols_of node)"

text \<open>The three error results that \<open>parse\<close> constructs (lines 221, 239 and 255).\<close>

definition parse_errors :: "parse_result set" where
  "parse_errors =
     {create_parse_error ''Unmatched '(' in input'',
      create_parse_error ''Unterminated string literal in input'',
      create_parse_error ''Unexpected end of input''}"

section \<open>Properties\<close>

lemmas eval_defs = create_success_result_def create_error_result_def create_int_value_def
  create_string_value_def strdup_def c_str_def strcmp_eq_def strcat_def strlen_def

lemmas parse_defs = create_parse_success_def create_parse_error_def create_int_node_def
  create_symbol_node_def create_string_node_def create_list_node_def strdup_def strndup_def c_str_def

lemmas char_defs = char_at_def is_space_def is_digit_def digit_of_def symbol_char_def

lemmas loop_simps = skip_whitespace.simps parse_digits.simps scan_string.simps scan_symbol.simps
  parse.simps parse_list_items.simps

subsection \<open>C1: the operator \<open>-\<close> without arguments\<close>

text \<open>
  C1. The claim: evaluating \<open>(-)\<close> returns an arity error. The code has no such check:
  line 294 reads \<open>items[1]\<close> of a list of length 1, outside the array. The input
  \<open>(-)\<close> parses to the list holding the symbol \<open>-\<close> alone, and evaluating that node
  reads outside the object (\<open>None\<close>); no result is returned, so no arity error either.
\<close>

theorem eval_minus_without_arguments:
  "parse ''(-)'' 0 = Some (Parse_node (Node_list [Node_symbol ''-'']), 3)
   \<and> eval_ast_node (Node_list [Node_symbol ''-'']) = None"
  by (simp add: loop_simps parse_defs char_defs eval_defs)

subsection \<open>C6: dispatch on the shape of the node\<close>

text \<open>
  C6. Evaluating a bare symbol returns the error "Cannot evaluate a standalone symbol";
  a list without children, "Cannot evaluate an empty list"; a list whose first child is
  not a symbol, "First element of a list must be a symbol (operator)"; a list whose first
  child is a symbol other than \<open>+\<close>, \<open>-\<close> and \<open>concat\<close>, "Unknown operator".
\<close>

theorem eval_dispatch:
  "eval_ast_node (Node_symbol s) = Some (create_error_result ''Cannot evaluate a standalone symbol'')
   \<and> eval_ast_node (Node_list []) = Some (create_error_result ''Cannot evaluate an empty list'')
   \<and> ((\<forall>name. op \<noteq> Node_symbol name) \<longrightarrow>
        eval_ast_node (Node_list (op # args)) =
          Some (create_error_result ''First element of a list must be a symbol (operator)''))
   \<and> (\<not> strcmp_eq name ''+'' \<and> \<not> strcmp_eq name ''-'' \<and> \<not> strcmp_eq name ''concat'' \<longrightarrow>
        eval_ast_node (Node_list (Node_symbol name # rest)) =
          Some (create_error_result ''Unknown operator''))"
  by (cases op) simp_all

theorem eval_dispatch_witness:
  "(\<forall>name. Node_int 1 \<noteq> Node_symbol name)
   \<and> eval_ast_node (Node_list [Node_int 1, Node_int 2]) =
        Some (Result_error ''First element of a list must be a symbol (operator)'')
   \<and> \<not> strcmp_eq ''foo'' ''+'' \<and> \<not> strcmp_eq ''foo'' ''-'' \<and> \<not> strcmp_eq ''foo'' ''concat''
   \<and> eval_ast_node (Node_list [Node_symbol ''foo'', Node_int 1]) = Some (Result_error ''Unknown operator'')
   \<and> eval_ast_node (Node_symbol ''x'') = Some (Result_error ''Cannot evaluate a standalone symbol'')
   \<and> eval_ast_node (Node_list []) = Some (Result_error ''Cannot evaluate an empty list'')"
proof -
  have h1: "\<forall>name. Node_int 1 \<noteq> Node_symbol name" by simp
  have h2: "\<not> strcmp_eq ''foo'' ''+'' \<and> \<not> strcmp_eq ''foo'' ''-'' \<and> \<not> strcmp_eq ''foo'' ''concat''"
    by (simp add: strcmp_eq_def c_str_def)
  note d = eval_dispatch [where s = "''x''" and op = "Node_int 1" and args = "[Node_int 2]"
      and name = "''foo''" and rest = "[Node_int 1]"]
  from d h1 have a: "eval_ast_node (Node_list [Node_int 1, Node_int 2]) =
      Some (create_error_result ''First element of a list must be a symbol (operator)'')" by blast
  from d h2 have b: "eval_ast_node (Node_list [Node_symbol ''foo'', Node_int 1]) =
      Some (create_error_result ''Unknown operator'')" by blast
  from d have c: "eval_ast_node (Node_symbol ''x'') = Some (create_error_result ''Cannot evaluate a standalone symbol'')"
    and e: "eval_ast_node (Node_list []) = Some (create_error_result ''Cannot evaluate an empty list'')"
    by blast+
  from a b c e h1 h2 show ?thesis
    by (simp add: create_error_result_def strdup_def c_str_def)
qed

subsection \<open>C10: a closing parenthesis where an expression is expected\<close>

text \<open>
  C10. When the first byte after the leading whitespace is \<open>)\<close>, \<open>parse\<close> returns no
  error: it succeeds with a symbol node whose text is empty, and the cursor stays on the
  \<open>)\<close>, which is not consumed.
\<close>

theorem parse_close_paren_gives_empty_symbol:
  assumes "skip_whitespace input pos = Some p" and "char_at input p = Some (CHR '')'')"
  shows "parse input pos = Some (create_parse_success (create_symbol_node ''''), p)
       \<and> create_parse_success (create_symbol_node '''') = Parse_node (Node_symbol '''')"
proof -
  have "scan_symbol input p = Some p"
    using assms(2) by (simp add: scan_symbol_stop symbol_char_def)
  then show ?thesis
    using assms by (simp add: parse.simps is_digit_def parse_defs)
qed

theorem parse_close_paren_witness:
  "skip_whitespace '')'' 0 = Some 0 \<and> char_at '')'' 0 = Some (CHR '')'')
   \<and> parse '')'' 0 = Some (Parse_node (Node_symbol ''''), 0)"
proof -
  have h1: "skip_whitespace '')'' 0 = Some 0"
    by (simp add: skip_whitespace.simps char_defs)
  have h2: "char_at '')'' 0 = Some (CHR '')'')"
    by (simp add: char_at_def)
  from parse_close_paren_gives_empty_symbol [OF h1 h2]
  have "parse '')'' 0 = Some (Parse_node (Node_symbol ''''), 0)" by simp
  with h1 h2 show ?thesis by simp
qed

subsection \<open>C3: round trip of integer literals\<close>

lemma digit_char: "d < 10 \<Longrightarrow> is_digit (char_of (48 + d)) \<and> digit_of (char_of (48 + d)) = of_nat d"
  by (simp add: is_digit_def digit_of_def)

lemma decimal_digits: "\<forall>c\<in>set (decimal n). is_digit c"
proof (induction n rule: decimal.induct)
  case (1 n)
  show ?case
  proof (cases "n < 10")
    case True
    then show ?thesis by (subst decimal.simps) (simp add: digit_char)
  next
    case False
    have "n mod 10 < 10" by simp
    with 1 False show ?thesis
      by (subst decimal.simps) (simp add: digit_char)
  qed
qed

lemma decimal_not_empty: "decimal n \<noteq> []"
  by (subst decimal.simps) simp

lemma digits_value_decimal: "digits_value 0 (decimal n) = of_nat n"
proof (induction n rule: decimal.induct)
  case (1 n)
  show ?case
  proof (cases "n < 10")
    case True
    then show ?thesis
      by (subst decimal.simps) (simp add: digits_value_def digit_char)
  next
    case False
    have m: "n mod 10 < 10" by simp
    have "digits_value 0 (decimal n) =
        digits_value 0 (decimal (n div 10)) * 10 + digit_of (char_of (48 + n mod 10))"
      using False by (subst decimal.simps) (simp add: digits_value_def)
    also have "\<dots> = of_nat (n div 10) * 10 + of_nat (n mod 10)"
      using 1 False digit_char [OF m] by simp
    also have "\<dots> = of_nat (n div 10 * 10 + n mod 10)"
      by (simp only: of_nat_add of_nat_mult of_nat_numeral)
    also have "n div 10 * 10 + n mod 10 = n" by simp
    finally show ?thesis .
  qed
qed

lemma parse_digits_run:
  assumes "\<forall>c\<in>set ds. is_digit c"
    and "\<exists>c. char_at (pre @ ds @ suf) (length pre + length ds) = Some c \<and> \<not> is_digit c"
  shows "parse_digits (pre @ ds @ suf) (length pre) v =
         Some (digits_value v ds, length pre + length ds)"
  using assms
proof (induction ds arbitrary: pre v)
  case Nil
  then show ?case by (auto simp: parse_digits_stop digits_value_def)
next
  case (Cons d ds)
  have c: "char_at (pre @ (d # ds) @ suf) (length pre) = Some d"
    by (simp add: char_at_def nth_append)
  from Cons.prems have d: "is_digit d" by simp
  have "parse_digits (pre @ (d # ds) @ suf) (length pre) v =
        parse_digits ((pre @ [d]) @ ds @ suf) (length (pre @ [d])) (v * 10 + digit_of d)"
    using parse_digits_step [OF c d] by simp
  also have "\<dots> = Some (digits_value (v * 10 + digit_of d) ds, length (pre @ [d]) + length ds)"
    using Cons.prems by (intro Cons.IH) auto
  finally show ?case by (simp add: digits_value_def)
qed

lemma is_digit_other: "is_digit c \<Longrightarrow> \<not> is_space c \<and> c \<noteq> CHR ''(''"
  by (auto simp: is_digit_def is_space_def)

lemma parse_decimal:
  "parse (decimal n) 0 = Some (create_parse_success (create_int_node (of_nat n)), length (decimal n))"
proof -
  obtain d ds where dec: "decimal n = d # ds"
    using decimal_not_empty [of n] by (cases "decimal n") auto
  have d: "is_digit d" using decimal_digits [of n] dec by simp
  have c0: "char_at (decimal n) 0 = Some d" by (simp add: dec char_at_def)
  have sk: "skip_whitespace (decimal n) 0 = Some 0"
    using c0 d by (simp add: skip_whitespace_stop is_digit_other)
  have "parse_digits ([] @ decimal n @ []) (length ([] :: string)) 0 =
        Some (digits_value 0 (decimal n), length ([] :: string) + length (decimal n))"
  proof (rule parse_digits_run)
    show "\<forall>c\<in>set (decimal n). is_digit c" by (rule decimal_digits)
    show "\<exists>c. char_at ([] @ decimal n @ []) (length ([] :: string) + length (decimal n)) = Some c \<and> \<not> is_digit c"
      by (simp add: char_at_def is_digit_def)
  qed
  then have pd: "parse_digits (decimal n) 0 0 = Some (of_nat n, length (decimal n))"
    by (simp add: digits_value_decimal)
  show ?thesis
    using sk c0 d pd by (simp add: parse.simps is_digit_other)
qed

lemma sint_small: "n < 2 ^ 31 \<Longrightarrow> sint (of_nat n :: c_int) = int n"
proof -
  assume n: "n < 2 ^ 31"
  have "int n < 2 ^ 31" using n by (metis of_nat_less_iff of_nat_numeral of_nat_power)
  then have "signed_take_bit 31 (int n) = int n"
    by (intro signed_take_bit_int_eq_self) simp_all
  then show ?thesis by (simp add: signed_of_nat)
qed

text \<open>
  C3. For every natural number \<open>n\<close> below \<open>2^31\<close> (the non-negative values of a 32-bit
  \<open>int\<close>), parsing the decimal text of \<open>n\<close> from cursor 0 succeeds with an integer
  node, the cursor ends after the last digit, and evaluating the node yields the integer
  value \<open>n\<close>.
\<close>

theorem int_literal_round_trip:
  assumes "n < 2 ^ 31"
  shows "parse (decimal n) 0 =
           Some (create_parse_success (create_int_node (of_nat n)), length (decimal n))
       \<and> create_parse_success (create_int_node (of_nat n)) = Parse_node (Node_int (of_nat n))
       \<and> eval_ast_node (Node_int (of_nat n)) = Some (create_success_result (create_int_value (of_nat n)))
       \<and> create_success_result (create_int_value (of_nat n)) = Result_value (Value_int (of_nat n))
       \<and> sint (of_nat n :: c_int) = int n"
  using assms
  by (simp add: parse_decimal sint_small create_parse_success_def create_int_node_def
      create_success_result_def create_int_value_def)

theorem int_literal_round_trip_witness:
  "(2147483647 :: nat) < 2 ^ 31
   \<and> decimal 2147483647 = ''2147483647''
   \<and> parse ''2147483647'' 0 = Some (Parse_node (Node_int 2147483647), 10)
   \<and> eval_ast_node (Node_int 2147483647) = Some (Result_value (Value_int 2147483647))
   \<and> sint (2147483647 :: c_int) = 2147483647"
proof -
  have h: "(2147483647 :: nat) < 2 ^ 31" by simp
  have d: "decimal 2147483647 = ''2147483647''"
    by (simp add: decimal.simps char_of_def bit_Suc_0_iff)
  from int_literal_round_trip [OF h] d h show ?thesis
    by (simp add: create_parse_success_def create_int_node_def create_success_result_def create_int_value_def)
qed

subsection \<open>The loops of the operators\<close>

lemma c_str_idem: "c_str (c_str s) = c_str s"
  by (simp add: c_str_def)

lemma c_str_append: "c_str a = a \<Longrightarrow> c_str (a @ c_str b) = a @ c_str b"
  by (simp add: c_str_def takeWhile_eq_all_conv)

lemma c_str_concat: "\<forall>s\<in>set ss. c_str s = s \<Longrightarrow> c_str (concat ss) = concat ss"
  by (simp add: c_str_def takeWhile_eq_all_conv)

lemma eval_plus_args_ints:
  "list_all2 evaluates_to_int args vs \<Longrightarrow>
   eval_plus_args args acc = Some (create_success_result (create_int_value (acc + sum_list vs)))"
  by (induction args vs arbitrary: acc rule: list_all2_induct)
     (simp_all add: evaluates_to_int_def add.assoc)

lemma eval_plus_args_error:
  "list_all2 evaluates_to_int pre vs \<Longrightarrow> eval_ast_node a = Some (Result_error m) \<Longrightarrow>
   eval_plus_args (pre @ a # post) acc = Some (Result_error m)"
  by (induction pre vs arbitrary: acc rule: list_all2_induct)
     (simp_all add: evaluates_to_int_def)

lemma eval_plus_args_string:
  "list_all2 evaluates_to_int pre vs \<Longrightarrow> evaluates_to_string a s \<Longrightarrow>
   eval_plus_args (pre @ a # post) acc = Some (create_error_result ''Non-integer argument to +'')"
  by (induction pre vs arbitrary: acc rule: list_all2_induct)
     (simp_all add: evaluates_to_int_def evaluates_to_string_def)

lemma eval_minus_args_error:
  "list_all2 evaluates_to_int pre vs \<Longrightarrow> eval_ast_node a = Some (Result_error m) \<Longrightarrow>
   eval_minus_args (pre @ a # post) acc = Some (Result_error m)"
  by (induction pre vs arbitrary: acc rule: list_all2_induct)
     (simp_all add: evaluates_to_int_def)

lemma eval_concat_lengths_strings:
  "list_all2 evaluates_to_string args ss \<Longrightarrow>
   eval_concat_lengths args n = Some (Inr (n + sum_list (map strlen ss)))"
  by (induction args ss arbitrary: n rule: list_all2_induct)
     (simp_all add: evaluates_to_string_def add.assoc)

lemma eval_concat_lengths_error:
  "list_all2 evaluates_to_string pre ss \<Longrightarrow> eval_ast_node a = Some (Result_error m) \<Longrightarrow>
   eval_concat_lengths (pre @ a # post) n = Some (Inl (Result_error m))"
  by (induction pre ss arbitrary: n rule: list_all2_induct)
     (simp_all add: evaluates_to_string_def)

lemma eval_concat_lengths_int:
  "list_all2 evaluates_to_string pre ss \<Longrightarrow> evaluates_to_int a v \<Longrightarrow>
   eval_concat_lengths (pre @ a # post) n =
     Some (Inl (create_error_result ''Non-string argument to concat''))"
  by (induction pre ss arbitrary: n rule: list_all2_induct)
     (simp_all add: evaluates_to_string_def evaluates_to_int_def)

lemma eval_concat_strings_strings:
  "list_all2 evaluates_to_string args ss \<Longrightarrow> c_str buf = buf \<Longrightarrow>
   length buf + sum_list (map strlen ss) \<le> cap \<Longrightarrow>
   eval_concat_strings args cap buf = Some (buf @ concat (map c_str ss))"
proof (induction args ss arbitrary: buf rule: list_all2_induct)
  case Nil
  then show ?case by simp
next
  case (Cons a args s ss)
  have cat: "strcat buf s = buf @ c_str s"
    using Cons.prems(1) by (simp add: strcat_def)
  have "eval_concat_strings args cap (buf @ c_str s) = Some ((buf @ c_str s) @ concat (map c_str ss))"
    using Cons.prems by (intro Cons.IH) (simp_all add: c_str_append strlen_def)
  with Cons.hyps(1) Cons.prems cat show ?case
    by (simp add: evaluates_to_string_def strlen_def)
qed

lemma eval_plus_args_result:
  "eval_plus_args args acc = Some r \<Longrightarrow> (\<exists>v. r = Result_value (Value_int v)) \<or> (\<exists>m. r = Result_error m)"
  by (induction args arbitrary: acc)
     (auto simp: create_success_result_def create_int_value_def create_error_result_def
        split: option.splits result.splits lisp_value.splits)

lemma eval_minus_args_result:
  "eval_minus_args args acc = Some r \<Longrightarrow> (\<exists>v. r = Result_value (Value_int v)) \<or> (\<exists>m. r = Result_error m)"
  by (induction args arbitrary: acc)
     (auto simp: create_success_result_def create_int_value_def create_error_result_def
        split: option.splits result.splits lisp_value.splits)

lemma eval_concat_lengths_early:
  "eval_concat_lengths args n = Some (Inl r) \<Longrightarrow> \<exists>m. r = Result_error m"
  by (induction args arbitrary: n)
     (auto simp: create_error_result_def split: option.splits result.splits lisp_value.splits)

lemma eval_string_c_str:
  assumes "evaluates_to_string node s"
  shows "c_str s = s"
proof (cases node)
  case (Node_int v)
  with assms show ?thesis
    by (simp add: evaluates_to_string_def create_success_result_def create_int_value_def)
next
  case (Node_symbol x)
  with assms show ?thesis
    by (simp add: evaluates_to_string_def create_error_result_def)
next
  case (Node_string x)
  with assms show ?thesis
    by (auto simp: evaluates_to_string_def create_success_result_def create_string_value_def
        strdup_def c_str_idem)
next
  case (Node_list items)
  show ?thesis
  proof (cases items)
    case Nil
    with assms Node_list show ?thesis
      by (simp add: evaluates_to_string_def create_error_result_def)
  next
    case (Cons op args)
    show ?thesis
    proof (cases op)
      case (Node_symbol name)
      with assms Node_list Cons show ?thesis
        by (auto simp: evaluates_to_string_def create_success_result_def create_string_value_def
            create_error_result_def strdup_def c_str_idem
            split: if_splits option.splits list.splits result.splits lisp_value.splits sum.splits
            dest: eval_plus_args_result eval_minus_args_result eval_concat_lengths_early)
    qed (use assms Node_list Cons in \<open>simp_all add: evaluates_to_string_def create_error_result_def\<close>)
  qed
qed

lemma eval_concat_all_strings:
  assumes "strcmp_eq name ''concat''" and "list_all2 evaluates_to_string args ss"
  shows "eval_ast_node (Node_list (Node_symbol name # args)) =
         Some (Result_value (Value_string (concat ss)))"
proof -
  have n1: "\<not> strcmp_eq name ''+''" and n2: "\<not> strcmp_eq name ''-''"
    using assms(1) by (auto simp: strcmp_eq_def c_str_def)
  have each: "\<forall>s\<in>set ss. c_str s = s"
  proof
    fix s assume "s \<in> set ss"
    then obtain i where "i < length ss" and "ss ! i = s" by (auto simp: in_set_conv_nth)
    with assms(2) have "evaluates_to_string (args ! i) s" by (auto simp: list_all2_conv_all_nth)
    then show "c_str s = s" by (rule eval_string_c_str)
  qed
  then have m: "map c_str ss = ss" by (simp add: map_idI)
  have len: "eval_concat_lengths args 0 = Some (Inr (sum_list (map strlen ss)))"
    using eval_concat_lengths_strings [OF assms(2), of 0] by simp
  have str: "eval_concat_strings args (sum_list (map strlen ss)) [] = Some (concat ss)"
    using eval_concat_strings_strings [OF assms(2), of "[]" "sum_list (map strlen ss)"] m
    by (simp add: c_str_def)
  show ?thesis
    using assms(1) n1 n2 len str c_str_concat [OF each]
    by (simp add: create_success_result_def create_string_value_def strdup_def)
qed


lemma strcmp_eq_plus: "strcmp_eq name ''+'' \<Longrightarrow> \<not> strcmp_eq name ''-'' \<and> \<not> strcmp_eq name ''concat''"
  by (auto simp: strcmp_eq_def c_str_def)

lemma strcmp_eq_minus: "strcmp_eq name ''-'' \<Longrightarrow> \<not> strcmp_eq name ''+'' \<and> \<not> strcmp_eq name ''concat''"
  by (auto simp: strcmp_eq_def c_str_def)

lemma strcmp_eq_concat: "strcmp_eq name ''concat'' \<Longrightarrow> \<not> strcmp_eq name ''+'' \<and> \<not> strcmp_eq name ''-''"
  by (auto simp: strcmp_eq_def c_str_def)

lemma eval_minus_error:
  assumes "strcmp_eq name ''-''" and "list_all2 evaluates_to_int pre vs"
    and "eval_ast_node a = Some (Result_error m)"
  shows "eval_ast_node (Node_list (Node_symbol name # pre @ a # post)) = Some (Result_error m)"
proof (cases pre)
  case Nil
  with assms(1,3) strcmp_eq_minus [OF assms(1)] show ?thesis by simp
next
  case (Cons p pre')
  with assms(2) obtain v vs' where vs: "vs = v # vs'" and p: "evaluates_to_int p v"
    and rest: "list_all2 evaluates_to_int pre' vs'"
    by (auto simp: list_all2_Cons1)
  from eval_minus_args_error [OF rest assms(3)]
  have "eval_minus_args (pre' @ a # post) v = Some (Result_error m)" .
  with Cons p assms(1) strcmp_eq_minus [OF assms(1)] show ?thesis
    by (simp add: evaluates_to_int_def)
qed

subsection \<open>C4: the operator \<open>+\<close>\<close>

text \<open>
  C4, as stated, says that a list \<open>(+ ...)\<close> returns the type error "Non-integer argument
  to +" as soon as some argument evaluates successfully to a non-integer value. The loop
  of lines 279--290 returns at the first argument that is not an integer, whatever comes
  after it: in \<open>(+ x "a")\<close> the argument \<open>"a"\<close> evaluates to a string, and the result
  is the error of the bare symbol \<open>x\<close>, not the type error.
\<close>

theorem eval_plus_type_error_counterexample:
  "eval_ast_node (Node_string ''a'') = Some (Result_value (Value_string ''a''))
   \<and> eval_ast_node (Node_list [Node_symbol ''+'', Node_symbol ''x'', Node_string ''a'']) =
        Some (Result_error ''Cannot evaluate a standalone symbol'')
   \<and> Result_error ''Cannot evaluate a standalone symbol'' \<noteq>
        create_error_result ''Non-integer argument to +''"
  by (simp add: eval_defs)

text \<open>
  C4, amended. For a list whose first child is the symbol \<open>+\<close>: when every remaining
  child evaluates to an integer, the result is the integer value of their sum (32-bit,
  wrapping; 0 without arguments); when a child evaluates to a string and every child
  before it evaluates to an integer, the result is the error "Non-integer argument to +",
  whatever follows that child.
\<close>

theorem eval_plus_list:
  assumes "strcmp_eq name ''+''" and "list_all2 evaluates_to_int pre vs"
  shows "eval_ast_node (Node_list (Node_symbol name # pre)) =
           Some (Result_value (Value_int (sum_list vs)))
       \<and> (evaluates_to_string a s \<longrightarrow>
            eval_ast_node (Node_list (Node_symbol name # pre @ a # post)) =
              Some (create_error_result ''Non-integer argument to +''))"
  using assms eval_plus_args_ints [OF assms(2), of 0]
    eval_plus_args_string [OF assms(2), of a s post 0]
  by (simp add: create_success_result_def create_int_value_def)

theorem eval_plus_list_witness:
  "strcmp_eq ''+'' ''+''
   \<and> list_all2 evaluates_to_int [Node_int 1, Node_int 2, Node_int 3] [1, 2, 3]
   \<and> evaluates_to_string (Node_string ''x'') ''x''
   \<and> eval_ast_node (Node_list [Node_symbol ''+'', Node_int 1, Node_int 2, Node_int 3]) =
        Some (Result_value (Value_int 6))
   \<and> eval_ast_node (Node_list [Node_symbol ''+'', Node_int 1, Node_int 2, Node_int 3,
          Node_string ''x'', Node_symbol ''y'']) =
        Some (Result_error ''Non-integer argument to +'')"
proof -
  have h1: "strcmp_eq ''+'' ''+''" by (simp add: strcmp_eq_def)
  have h2: "list_all2 evaluates_to_int [Node_int 1, Node_int 2, Node_int 3] [1, 2, 3]"
    by (simp add: evaluates_to_int_def create_success_result_def create_int_value_def)
  have h3: "evaluates_to_string (Node_string ''x'') ''x''"
    by (simp add: evaluates_to_string_def create_success_result_def create_string_value_def
        strdup_def c_str_def)
  from eval_plus_list [OF h1 h2, of "Node_string ''x''" "''x''" "[Node_symbol ''y'']"] h3
  have "eval_ast_node (Node_list [Node_symbol ''+'', Node_int 1, Node_int 2, Node_int 3]) =
          Some (Result_value (Value_int 6))"
    and "eval_ast_node (Node_list [Node_symbol ''+'', Node_int 1, Node_int 2, Node_int 3,
          Node_string ''x'', Node_symbol ''y'']) =
          Some (Result_error ''Non-integer argument to +'')"
    by (simp_all add: create_error_result_def strdup_def c_str_def)
  with h1 h2 h3 show ?thesis by blast
qed

subsection \<open>C5: the operator \<open>concat\<close>\<close>

text \<open>
  C5, as stated, says that a list \<open>(concat ...)\<close> returns a type error as soon as some
  argument evaluates successfully to a non-string value. The loop of lines 321--331
  returns at the first argument that is not a string: in \<open>(concat x 1)\<close> the argument
  \<open>1\<close> evaluates to an integer, and the result is the error of the bare symbol \<open>x\<close>.
\<close>

theorem eval_concat_type_error_counterexample:
  "eval_ast_node (Node_int 1) = Some (Result_value (Value_int 1))
   \<and> eval_ast_node (Node_list [Node_symbol ''concat'', Node_symbol ''x'', Node_int 1]) =
        Some (Result_error ''Cannot evaluate a standalone symbol'')
   \<and> Result_error ''Cannot evaluate a standalone symbol'' \<noteq>
        create_error_result ''Non-string argument to concat''"
  by (simp add: eval_defs)

text \<open>
  C5, amended. For a list whose first child is the symbol \<open>concat\<close>: when every remaining
  child evaluates to a string, the result is the string value of those strings joined in
  order with nothing between them (the empty string without arguments); when a child
  evaluates to an integer and every child before it evaluates to a string, the result is
  the error "Non-string argument to concat", whatever follows that child.
\<close>

theorem eval_concat_list:
  assumes "strcmp_eq name ''concat''" and "list_all2 evaluates_to_string pre ss"
  shows "eval_ast_node (Node_list (Node_symbol name # pre)) =
           Some (Result_value (Value_string (concat ss)))
       \<and> (evaluates_to_int a v \<longrightarrow>
            eval_ast_node (Node_list (Node_symbol name # pre @ a # post)) =
              Some (create_error_result ''Non-string argument to concat''))"
  using eval_concat_all_strings [OF assms] strcmp_eq_concat [OF assms(1)] assms(1)
    eval_concat_lengths_int [OF assms(2), of a v post 0]
  by simp

theorem eval_concat_list_witness:
  "strcmp_eq ''concat'' ''concat''
   \<and> list_all2 evaluates_to_string [Node_string ''a'', Node_string ''b'', Node_string ''c'']
        [''a'', ''b'', ''c'']
   \<and> evaluates_to_int (Node_int 1) 1
   \<and> eval_ast_node (Node_list [Node_symbol ''concat'', Node_string ''a'', Node_string ''b'',
          Node_string ''c'']) = Some (Result_value (Value_string ''abc''))
   \<and> eval_ast_node (Node_list [Node_symbol ''concat'', Node_string ''a'', Node_string ''b'',
          Node_string ''c'', Node_int 1, Node_symbol ''y'']) =
        Some (Result_error ''Non-string argument to concat'')"
proof -
  have h1: "strcmp_eq ''concat'' ''concat''" by (simp add: strcmp_eq_def)
  have h2: "list_all2 evaluates_to_string [Node_string ''a'', Node_string ''b'', Node_string ''c'']
        [''a'', ''b'', ''c'']"
    by (simp add: evaluates_to_string_def create_success_result_def create_string_value_def
        strdup_def c_str_def)
  have h3: "evaluates_to_int (Node_int 1) 1"
    by (simp add: evaluates_to_int_def create_success_result_def create_int_value_def)
  from eval_concat_list [OF h1 h2, of "Node_int 1" 1 "[Node_symbol ''y'']"] h3
  have "eval_ast_node (Node_list [Node_symbol ''concat'', Node_string ''a'', Node_string ''b'',
          Node_string ''c'']) = Some (Result_value (Value_string ''abc''))"
    and "eval_ast_node (Node_list [Node_symbol ''concat'', Node_string ''a'', Node_string ''b'',
          Node_string ''c'', Node_int 1, Node_symbol ''y'']) =
        Some (Result_error ''Non-string argument to concat'')"
    by (simp_all add: create_error_result_def strdup_def c_str_def)
  with h1 h2 h3 show ?thesis by blast
qed

subsection \<open>C9: the first error ends the evaluation of the arguments\<close>

text \<open>
  C9, as stated, says that the error of the \<open>i\<close>-th argument is the result of the list
  whenever all earlier arguments succeeded. An earlier argument that succeeds with a value
  of the wrong kind ends the loop first: in \<open>(+ "a" x)\<close> the argument \<open>"a"\<close> evaluates
  successfully, evaluating \<open>x\<close> yields the error of a bare symbol, and the result of the
  list is the type error of \<open>"a"\<close>.
\<close>

theorem eval_short_circuit_counterexample:
  "eval_ast_node (Node_string ''a'') = Some (Result_value (Value_string ''a''))
   \<and> eval_ast_node (Node_symbol ''x'') = Some (Result_error ''Cannot evaluate a standalone symbol'')
   \<and> eval_ast_node (Node_list [Node_symbol ''+'', Node_string ''a'', Node_symbol ''x'']) =
        Some (Result_error ''Non-integer argument to +'')
   \<and> Result_error ''Non-integer argument to +'' \<noteq>
        Result_error ''Cannot evaluate a standalone symbol''"
  by (simp add: eval_defs)

text \<open>
  C9, amended. For a list whose first child names \<open>+\<close>, \<open>-\<close> or \<open>concat\<close>: when
  evaluating an argument yields an error and every argument before it evaluates to a value
  of the kind the operator takes (an integer for \<open>+\<close> and \<open>-\<close>, a string for
  \<open>concat\<close>), the result of the list is exactly that error; the arguments after it are
  arbitrary (\<open>post\<close>) and take no part in the result, and no success value is returned.
\<close>

theorem eval_short_circuit:
  assumes "eval_ast_node a = Some (Result_error m)"
  shows "((strcmp_eq name ''+'' \<or> strcmp_eq name ''-'') \<and> list_all2 evaluates_to_int pre vs \<longrightarrow>
            eval_ast_node (Node_list (Node_symbol name # pre @ a # post)) = Some (Result_error m))
       \<and> (strcmp_eq name ''concat'' \<and> list_all2 evaluates_to_string pre ss \<longrightarrow>
            eval_ast_node (Node_list (Node_symbol name # pre @ a # post)) = Some (Result_error m))"
proof (intro conjI impI)
  assume h: "(strcmp_eq name ''+'' \<or> strcmp_eq name ''-'') \<and> list_all2 evaluates_to_int pre vs"
  then have ints: "list_all2 evaluates_to_int pre vs" by simp
  from h show "eval_ast_node (Node_list (Node_symbol name # pre @ a # post)) = Some (Result_error m)"
  proof (elim conjE disjE)
    assume "strcmp_eq name ''+''"
    with eval_plus_args_error [OF ints assms, of post 0] show ?thesis by simp
  next
    assume "strcmp_eq name ''-''"
    from eval_minus_error [OF this ints assms] show ?thesis .
  qed
next
  assume h: "strcmp_eq name ''concat'' \<and> list_all2 evaluates_to_string pre ss"
  then have c: "strcmp_eq name ''concat''" and strs: "list_all2 evaluates_to_string pre ss"
    by simp_all
  from eval_concat_lengths_error [OF strs assms, of post 0] c strcmp_eq_concat [OF c]
  show "eval_ast_node (Node_list (Node_symbol name # pre @ a # post)) = Some (Result_error m)"
    by simp
qed

theorem eval_short_circuit_witness:
  "eval_ast_node (Node_symbol ''x'') = Some (Result_error ''Cannot evaluate a standalone symbol'')
   \<and> strcmp_eq ''-'' ''-'' \<and> list_all2 evaluates_to_int [Node_int 10, Node_int 1] [10, 1]
   \<and> eval_ast_node (Node_list [Node_symbol ''-'', Node_int 10, Node_int 1, Node_symbol ''x'',
          Node_list [Node_symbol ''-'']]) =
        Some (Result_error ''Cannot evaluate a standalone symbol'')
   \<and> strcmp_eq ''concat'' ''concat'' \<and> list_all2 evaluates_to_string [Node_string ''a''] [''a'']
   \<and> eval_ast_node (Node_list [Node_symbol ''concat'', Node_string ''a'', Node_symbol ''x'',
          Node_list [Node_symbol ''-'']]) =
        Some (Result_error ''Cannot evaluate a standalone symbol'')"
proof -
  have h0: "eval_ast_node (Node_symbol ''x'') = Some (Result_error ''Cannot evaluate a standalone symbol'')"
    by (simp add: create_error_result_def strdup_def c_str_def)
  have h1: "strcmp_eq ''-'' ''-''" and h3: "strcmp_eq ''concat'' ''concat''"
    by (simp_all add: strcmp_eq_def)
  have h2: "list_all2 evaluates_to_int [Node_int 10, Node_int 1] [10, 1]"
    by (simp add: evaluates_to_int_def create_success_result_def create_int_value_def)
  have h4: "list_all2 evaluates_to_string [Node_string ''a''] [''a'']"
    by (simp add: evaluates_to_string_def create_success_result_def create_string_value_def
        strdup_def c_str_def)
  note t = eval_short_circuit [OF h0, where post = "[Node_list [Node_symbol ''-'']]"]
  from t [where name = "''-''" and pre = "[Node_int 10, Node_int 1]" and vs = "[10, 1]"] h1 h2
  have a: "eval_ast_node (Node_list [Node_symbol ''-'', Node_int 10, Node_int 1, Node_symbol ''x'',
          Node_list [Node_symbol ''-'']]) =
        Some (Result_error ''Cannot evaluate a standalone symbol'')"
    by simp
  from t [where name = "''concat''" and pre = "[Node_string ''a'']" and ss = "[''a'']"] h3 h4
  have b: "eval_ast_node (Node_list [Node_symbol ''concat'', Node_string ''a'', Node_symbol ''x'',
          Node_list [Node_symbol ''-'']]) =
        Some (Result_error ''Cannot evaluate a standalone symbol'')"
    by simp
  from h0 h1 h2 h3 h4 a b show ?thesis by blast
qed

subsection \<open>C2: the text of a parsed symbol\<close>

text \<open>
  The symbol loop, and how the text of a symbol that \<open>parse\<close> returns lies in the input.
  Every symbol node of a tree that \<open>parse\<close> returns was returned by a call of \<open>parse\<close> on
  the same input, so each of them has such a place.
\<close>

lemma scan_symbol_stops:
  "scan_symbol input p = Some p' \<Longrightarrow> \<exists>c. char_at input p' = Some c \<and> \<not> symbol_char c"
proof (induction input p rule: scan_symbol.induct)
  case (1 input pos)
  show ?case
  proof (cases "char_at input pos")
    case None
    with 1 show ?thesis by (simp add: scan_symbol_None)
  next
    case (Some c)
    show ?thesis
    proof (cases "symbol_char c")
      case True
      with 1 Some show ?thesis by (simp add: scan_symbol_step)
    next
      case False
      with 1 Some show ?thesis by (auto simp: scan_symbol_stop)
    qed
  qed
qed

lemma scan_symbol_between:
  "scan_symbol input p = Some p' \<Longrightarrow> p \<le> i \<Longrightarrow> i < p' \<Longrightarrow>
   \<exists>c. char_at input i = Some c \<and> symbol_char c"
proof (induction input p rule: scan_symbol.induct)
  case (1 input pos)
  show ?case
  proof (cases "char_at input pos")
    case None
    with 1 show ?thesis by (simp add: scan_symbol_None)
  next
    case (Some c)
    show ?thesis
    proof (cases "symbol_char c")
      case True
      show ?thesis
      proof (cases "i = pos")
        case True
        with Some \<open>symbol_char c\<close> show ?thesis by simp
      next
        case False
        with "1.prems" have "Suc pos \<le> i" by simp
        with 1 Some True show ?thesis by (simp add: scan_symbol_step)
      qed
    next
      case False
      with 1 Some show ?thesis by (simp add: scan_symbol_stop)
    qed
  qed
qed

lemma scan_symbol_run:
  assumes "scan_symbol input p = Some p'"
  shows "list_all symbol_char (take (p' - p) (drop p input))"
proof -
  have "symbol_char x" if "x \<in> set (take (p' - p) (drop p input))" for x
  proof -
    from that obtain j where j: "j < p' - p" "j < length input - p" and x: "x = input ! (p + j)"
      by (auto simp: in_set_conv_nth)
    from j have "p \<le> p + j" and "p + j < p'" by linarith+
    from scan_symbol_between [OF assms this]
    obtain c where "char_at input (p + j) = Some c" and "symbol_char c" by auto
    moreover from j have "p + j < length input" by linarith
    ultimately show ?thesis using x by (simp add: char_at_def)
  qed
  then show ?thesis by (simp add: list_all_iff)
qed

lemma parse_list_items_node:
  "parse input pos = Some (Parse_node node, p) \<Longrightarrow> True"
  "parse_list_items input pos items = Some (Parse_node node, p) \<Longrightarrow> \<exists>xs. node = Node_list xs"
proof (induction input pos and input pos items arbitrary: node p and node p
    rule: parse_parse_list_items.induct)
  case (1 input pos0)
  show ?case by simp
next
  case (2 input pos items)
  from "2.prems" obtain c where c: "char_at input pos = Some c"
    by (auto simp: parse_list_items.simps split: option.splits)
  show ?case
  proof (cases "c \<noteq> CHR '')'' \<and> c \<noteq> CHR 0x00")
    case True
    with "2.prems" c obtain sub_result pos' where
      sub: "parse input pos = Some (sub_result, pos')"
      by (auto simp: parse_list_items.simps split: option.splits)
    show ?thesis
    proof (cases sub_result)
      case (Parse_error m)
      with "2.prems" c True sub show ?thesis
        by (simp add: parse_list_items.simps)
    next
      case (Parse_node child)
      with "2.prems" c True sub
      have "parse_list_items input pos' (items @ [child]) = Some (Parse_node node, p)"
        by (simp add: parse_list_items.simps)
      from "2.IH"(2) [OF c True sub refl Parse_node this] show ?thesis .
    qed
  next
    case False
    with "2.prems" c show ?thesis
      by (auto simp: parse_list_items.simps create_parse_success_def
          create_parse_error_def create_list_node_def split: if_splits)
  qed
qed

lemma char_at_Some_le: "char_at input p = Some c \<Longrightarrow> p \<le> length input"
  by (auto simp: char_at_def split: if_splits)

lemma char_at_not_NUL_less: "char_at input p = Some c \<Longrightarrow> c \<noteq> CHR 0x00 \<Longrightarrow> p < length input"
  by (auto simp: char_at_def split: if_splits)

lemma list_all_c_str: "list_all P xs \<Longrightarrow> list_all P (c_str xs)"
  by (auto simp: c_str_def list_all_iff dest: set_takeWhileD)

lemma c_str_Cons: "c \<noteq> CHR 0x00 \<Longrightarrow> c_str (c # xs) = c # c_str xs"
  by (simp add: c_str_def)

lemma c_str_hd: "c_str xs = y # ys \<Longrightarrow> \<exists>zs. xs = y # zs"
  by (cases xs) (auto simp: c_str_def split: if_splits)

lemma parse_symbol_span:
  assumes "parse input pos = Some (Parse_node (Node_symbol s), pos')"
  shows "\<exists>p. skip_whitespace input pos = Some p \<and> p \<le> pos' \<and> pos' \<le> length input
           \<and> symbol_span input s p pos'"
proof -
  from assms obtain p where sk: "skip_whitespace input pos = Some p"
    by (auto simp: parse.simps split: option.splits)
  from skip_whitespace_not_space [OF sk] obtain c0
    where c0: "char_at input p = Some c0" and nsp: "\<not> is_space c0" by blast
  have np: "c0 \<noteq> CHR ''(''"
  proof
    assume "c0 = CHR ''(''"
    with assms sk c0 have "parse_list_items input (Suc p) [] = Some (Parse_node (Node_symbol s), pos')"
      by (simp add: parse.simps)
    from parse_list_items_node(2) [OF this] show False by simp
  qed
  with assms sk c0 have ss: "scan_symbol input p = Some pos'"
    and s: "s = strdup (strndup (drop p input) (pos' - p))"
    and nz: "c0 \<noteq> CHR 0x00"
    by (auto simp: parse.simps create_parse_success_def create_parse_error_def
        create_int_node_def create_string_node_def create_symbol_node_def
        split: if_splits option.splits)
  let ?run = "take (pos' - p) (drop p input)"
  from s have s': "s = c_str ?run"
    by (simp add: strdup_def strndup_def c_str_def)
  from c0 nz have pl: "p < length input" by (rule char_at_not_NUL_less)
  with c0 have c0': "input ! p = c0" by (simp add: char_at_def)
  from scan_symbol_stops [OF ss] obtain c
    where c: "char_at input pos' = Some c" and stop: "\<not> symbol_char c" by blast
  have chars: "list_all symbol_char s"
    using scan_symbol_run [OF ss] s' by (simp add: list_all_c_str)
  have first: "case s of [] \<Rightarrow> char_at input p = Some (CHR '')'') | x # _ \<Rightarrow> x \<noteq> CHR ''(''"
  proof (cases s)
    case Nil
    have "c0 = CHR '')''"
    proof (rule ccontr)
      assume "c0 \<noteq> CHR '')''"
      with nsp have "symbol_char c0" by (simp add: symbol_char_def is_space_def)
      from scan_symbol_lt [OF ss c0 this] have "0 < pos' - p" by simp
      with pl c0' have "?run = c0 # take (pos' - p - 1) (drop (Suc p) input)"
        by (cases "pos' - p") (simp_all add: Cons_nth_drop_Suc [symmetric])
      with s' nz have "s \<noteq> []" by (simp add: c_str_Cons)
      with Nil show False by simp
    qed
    with Nil c0 show ?thesis by simp
  next
    case (Cons x xs)
    with s' obtain zs where "?run = x # zs" by (metis c_str_hd)
    then have "?run \<noteq> []" and "hd ?run = x" by simp_all
    then have "0 < pos' - p" by (auto simp: take_eq_Nil)
    with pl \<open>hd ?run = x\<close> have "x = input ! p" by (simp add: hd_drop_conv_nth)
    with c0' np Cons show ?thesis by simp
  qed
  have "symbol_span input s p pos'"
    using s' chars first c stop
    by (auto simp: symbol_span_def strndup_def symbol_char_def)
  with sk scan_symbol_le [OF ss] char_at_Some_le [OF c] show ?thesis by blast
qed

lemma symbols_spanned_simps:
  "symbols_spanned input (Node_int v)" "symbols_spanned input (Node_string t)"
  "symbols_spanned input (Node_list items) = list_all (symbols_spanned input) items"
  by (auto simp: symbols_spanned_def list_all_iff)

lemma parse_symbols_spanned:
  "parse input pos = Some (Parse_node node, p) \<Longrightarrow> symbols_spanned input node"
  "parse_list_items input pos items = Some (Parse_node node, p) \<Longrightarrow>
     list_all (symbols_spanned input) items \<Longrightarrow> symbols_spanned input node"
proof (induction input pos and input pos items arbitrary: node p and node p
    rule: parse_parse_list_items.induct)
  case (1 input pos0)
  show ?case
  proof (cases node)
    case (Node_int v)
    then show ?thesis by (simp add: symbols_spanned_simps)
  next
    case (Node_string t)
    then show ?thesis by (simp add: symbols_spanned_simps)
  next
    case (Node_symbol s)
    with "1.prems" have "parse input pos0 = Some (Parse_node (Node_symbol s), p)" by simp
    from parse_symbol_span [OF this] obtain q where "q \<le> p" "p \<le> length input"
      "symbol_span input s q p" by blast
    with Node_symbol show ?thesis by (auto simp: symbols_spanned_def)
  next
    case (Node_list xs)
    from "1.prems" obtain pos where sk: "skip_whitespace input pos0 = Some pos"
      by (auto simp: parse.simps split: option.splits)
    from "1.prems" sk obtain c where c: "char_at input pos = Some c"
      by (auto simp: parse.simps split: option.splits)
    have paren: "c = CHR ''(''"
    proof (rule ccontr)
      assume "c \<noteq> CHR ''(''"
      with "1.prems" sk c Node_list show False
        by (auto simp: parse.simps create_parse_success_def create_parse_error_def
            create_int_node_def create_string_node_def create_symbol_node_def
            split: if_splits option.splits)
    qed
    with "1.prems" sk c have "parse_list_items input (Suc pos) [] = Some (Parse_node node, p)"
      by (simp add: parse.simps)
    from "1.IH" [OF sk c paren this] show ?thesis by simp
  qed
next
  case (2 input pos items)
  from "2.prems" obtain c where c: "char_at input pos = Some c"
    by (auto simp: parse_list_items.simps split: option.splits)
  show ?case
  proof (cases "c \<noteq> CHR '')'' \<and> c \<noteq> CHR 0x00")
    case True
    with "2.prems" c obtain sub_result pos' where
      sub: "parse input pos = Some (sub_result, pos')"
      by (auto simp: parse_list_items.simps split: option.splits)
    show ?thesis
    proof (cases sub_result)
      case (Parse_error m)
      with "2.prems" c True sub show ?thesis
        by (simp add: parse_list_items.simps)
    next
      case (Parse_node child)
      with "2.prems" c True sub
      have next_call: "parse_list_items input pos' (items @ [child]) = Some (Parse_node node, p)"
        by (simp add: parse_list_items.simps)
      from "2.IH"(1) [OF c True] sub Parse_node have "symbols_spanned input child" by simp
      with "2.prems"(2) have "list_all (symbols_spanned input) (items @ [child])" by simp
      from "2.IH"(2) [OF c True sub refl Parse_node next_call this] show ?thesis .
    qed
  next
    case False
    with "2.prems" c show ?thesis
      by (auto simp: parse_list_items.simps symbols_spanned_simps create_parse_success_def
          create_parse_error_def create_list_node_def split: if_splits)
  qed
qed

text \<open>
  C2, as stated, says that the text of every symbol node is non-empty and holds none of
  space, tab, newline, \<open>(\<close>, \<open>)\<close>. The symbol loop (lines 247--250) tests for space,
  \<open>)\<close>, newline and tab, not for \<open>(\<close>: the input \<open>a(b\<close> followed by a space parses to the
  symbol \<open>a(b\<close>. The symbol branch (line 245) is taken for every byte that is not \<open>(\<close>, a
  digit, \<open>"\<close> or NUL, so also for \<open>)\<close>, where the loop stops at once: the input \<open>)\<close>
  parses to a symbol whose text is empty.
\<close>

theorem parse_symbol_text_counterexample:
  "parse ''a(b '' 0 = Some (Parse_node (Node_symbol ''a(b''), 3)
   \<and> CHR ''('' \<in> set ''a(b''
   \<and> parse '')'' 0 = Some (Parse_node (Node_symbol ''''), 0)"
  by (simp add: loop_simps parse_defs char_defs)

text \<open>
  C2, amended. For every input and cursor, when \<open>parse\<close> succeeds every symbol node of the
  tree it returns has a text that consists only of bytes that are none of space, tab,
  newline and \<open>)\<close>; the text is non-empty unless the symbol starts on a \<open>)\<close>; it never
  begins with \<open>(\<close> (a later byte may be \<open>(\<close>); and the run is maximal: the byte after the
  consumed symbol is one of those delimiters or the end of the input. When the node
  returned is itself a symbol, the run starts where the leading whitespace ends and the
  final cursor stands after it.
\<close>

theorem parse_symbol_text:
  assumes "parse input pos = Some (Parse_node node, pos')"
  shows "list_all (\<lambda>s. \<exists>q\<le>length input. \<exists>p\<le>q. symbol_span input s p q) (symbols_of node)
       \<and> (\<forall>s. node = Node_symbol s \<longrightarrow>
            (\<exists>p. skip_whitespace input pos = Some p \<and> symbol_span input s p pos'))"
proof (intro conjI allI impI)
  from parse_symbols_spanned(1) [OF assms]
  show "list_all (\<lambda>s. \<exists>q\<le>length input. \<exists>p\<le>q. symbol_span input s p q) (symbols_of node)"
    by (simp add: symbols_spanned_def)
next
  fix s assume "node = Node_symbol s"
  with assms have "parse input pos = Some (Parse_node (Node_symbol s), pos')" by simp
  from parse_symbol_span [OF this]
  show "\<exists>p. skip_whitespace input pos = Some p \<and> symbol_span input s p pos'"
    by blast
qed

theorem parse_symbol_text_witness:
  "parse ''(f(x (a b))'' 0 =
     Some (Parse_node (Node_list [Node_symbol ''f(x'',
       Node_list [Node_symbol ''a'', Node_symbol ''b'']]), 11)
   \<and> list_all (\<lambda>s. \<exists>q\<le>length ''(f(x (a b))''. \<exists>p\<le>q. symbol_span ''(f(x (a b))'' s p q)
        [''f(x'', ''a'', ''b'']
   \<and> parse '' foo bar'' 0 = Some (Parse_node (Node_symbol ''foo''), 4)
   \<and> skip_whitespace '' foo bar'' 0 = Some 1
   \<and> symbol_span '' foo bar'' ''foo'' 1 4"
proof -
  have h1: "parse ''(f(x (a b))'' 0 =
     Some (Parse_node (Node_list [Node_symbol ''f(x'',
       Node_list [Node_symbol ''a'', Node_symbol ''b'']]), 11)"
    by (simp add: loop_simps parse_defs char_defs)
  have h2: "parse '' foo bar'' 0 = Some (Parse_node (Node_symbol ''foo''), 4)"
    by (simp add: loop_simps parse_defs char_defs)
  have sk: "skip_whitespace '' foo bar'' 0 = Some 1"
    by (simp add: skip_whitespace.simps char_defs)
  from parse_symbol_text [OF h1]
  have a: "list_all (\<lambda>s. \<exists>q\<le>length ''(f(x (a b))''. \<exists>p\<le>q. symbol_span ''(f(x (a b))'' s p q)
        [''f(x'', ''a'', ''b'']"
    by simp
  from parse_symbol_text [OF h2] obtain p where
    "skip_whitespace '' foo bar'' 0 = Some p" "symbol_span '' foo bar'' ''foo'' p 4"
    by blast
  with sk have b: "symbol_span '' foo bar'' ''foo'' 1 4" by simp
  from h1 h2 a b sk show ?thesis by blast
qed

subsection \<open>C7: the errors of the parser\<close>

text \<open>
  An opening \<open>"\<close> without a closing one gives "Unterminated string literal in input";
  nothing after the leading whitespace gives "Unexpected end of input"; and an error that
  \<open>parse\<close> returns is always one of its three.
\<close>

lemma scan_string_takeWhile:
  "pos \<le> length input \<Longrightarrow>
   scan_string input pos =
     Some (pos + length (takeWhile (\<lambda>c. c \<noteq> CHR 0x22 \<and> c \<noteq> CHR 0x00) (drop pos input)))"
proof (induction input pos rule: scan_string.induct)
  case (1 input pos)
  show ?case
  proof (cases "pos < length input")
    case True
    then have c: "char_at input pos = Some (input ! pos)" by (simp add: char_at_def)
    from True have d: "drop pos input = input ! pos # drop (Suc pos) input"
      by (simp add: Cons_nth_drop_Suc)
    show ?thesis
    proof (cases "input ! pos \<noteq> CHR 0x22 \<and> input ! pos \<noteq> CHR 0x00")
      case yes: True
      with "1.IH" [OF c] True
      have "scan_string input (Suc pos) =
        Some (Suc pos + length (takeWhile (\<lambda>c. c \<noteq> CHR 0x22 \<and> c \<noteq> CHR 0x00) (drop (Suc pos) input)))"
        by simp
      with c yes d show ?thesis by (simp add: scan_string_step)
    next
      case False
      with c d show ?thesis by (auto simp: scan_string_stop)
    qed
  next
    case False
    with "1.prems" have "pos = length input" by simp
    then show ?thesis by (simp add: scan_string_stop char_at_def)
  qed
qed

lemma takeWhile_no_quote:
  "CHR 0x22 \<notin> set (c_str xs) \<Longrightarrow>
   takeWhile (\<lambda>c. c \<noteq> CHR 0x22 \<and> c \<noteq> CHR 0x00) xs = c_str xs"
  by (induction xs) (auto simp: c_str_def)

lemma char_at_end_of_c_str:
  assumes "q \<le> length input"
  shows "char_at input (q + strlen (drop q input)) = Some (CHR 0x00)"
proof -
  let ?r = "drop q input"
  let ?n = "length (takeWhile (\<lambda>c. c \<noteq> CHR 0x00) ?r)"
  have le: "?n \<le> length ?r" by (rule length_takeWhile_le)
  show ?thesis
  proof (cases "?n < length ?r")
    case True
    then have "\<not> (?r ! ?n \<noteq> CHR 0x00)" by (rule nth_length_takeWhile)
    moreover from True assms have "q + ?n < length input" by simp
    moreover from this have "?r ! ?n = input ! (q + ?n)" by simp
    ultimately show ?thesis by (simp add: char_at_def strlen_def c_str_def)
  next
    case False
    with le have "?n = length ?r" by simp
    with assms have "q + ?n = length input" by simp
    then show ?thesis by (simp add: char_at_def strlen_def c_str_def)
  qed
qed

lemma parse_unterminated_string:
  assumes "skip_whitespace input pos = Some p" and "char_at input p = Some (CHR 0x22)"
    and "CHR 0x22 \<notin> set (c_str (drop (Suc p) input))"
  shows "parse input pos =
    Some (create_parse_error ''Unterminated string literal in input'',
          Suc p + strlen (drop (Suc p) input))"
proof -
  from assms(2) have p: "Suc p \<le> length input"
    by (auto simp: char_at_def split: if_splits)
  have "scan_string input (Suc p) = Some (Suc p + strlen (drop (Suc p) input))"
    using scan_string_takeWhile [OF p] takeWhile_no_quote [OF assms(3)]
    by (simp add: strlen_def)
  with assms(1,2) char_at_end_of_c_str [OF p] show ?thesis
    by (simp add: parse.simps is_digit_def)
qed

lemma parse_end_of_input:
  assumes "skip_whitespace input pos = Some p" and "char_at input p = Some (CHR 0x00)"
  shows "parse input pos = Some (create_parse_error ''Unexpected end of input'', p)"
  using assms by (simp add: parse.simps is_digit_def)

lemma parse_only_errors:
  "parse input pos = Some (Parse_error m, p) \<Longrightarrow> Parse_error m \<in> parse_errors"
  "parse_list_items input pos items = Some (Parse_error m, p) \<Longrightarrow> Parse_error m \<in> parse_errors"
proof (induction input pos and input pos items arbitrary: m p and m p
    rule: parse_parse_list_items.induct)
  case (1 input pos0)
  from "1.prems" obtain pos where sk: "skip_whitespace input pos0 = Some pos"
    by (auto simp: parse.simps split: option.splits)
  from "1.prems" sk obtain c where c: "char_at input pos = Some c"
    by (auto simp: parse.simps split: option.splits)
  show ?case
  proof (cases "c = CHR ''(''")
    case True
    with "1.prems" sk c have "parse_list_items input (Suc pos) [] = Some (Parse_error m, p)"
      by (simp add: parse.simps)
    from "1.IH" [OF sk c True this] show ?thesis .
  next
    case False
    with "1.prems" sk c show ?thesis
      by (auto simp: parse.simps parse_errors_def create_parse_success_def
          split: if_splits option.splits)
  qed
next
  case (2 input pos items)
  from "2.prems" obtain c where c: "char_at input pos = Some c"
    by (auto simp: parse_list_items.simps split: option.splits)
  show ?case
  proof (cases "c \<noteq> CHR '')'' \<and> c \<noteq> CHR 0x00")
    case True
    with "2.prems" c obtain sub_result pos' where
      sub: "parse input pos = Some (sub_result, pos')"
      by (auto simp: parse_list_items.simps split: option.splits)
    show ?thesis
    proof (cases sub_result)
      case (Parse_error m')
      with "2.prems" c True sub have "m' = m" "pos' = p"
        by (simp_all add: parse_list_items.simps)
      with "2.IH"(1) [OF c True] sub Parse_error show ?thesis by simp
    next
      case (Parse_node child)
      with "2.prems" c True sub
      have "parse_list_items input pos' (items @ [child]) = Some (Parse_error m, p)"
        by (simp add: parse_list_items.simps)
      from "2.IH"(2) [OF c True sub refl Parse_node this] show ?thesis .
    qed
  next
    case False
    with "2.prems" c show ?thesis
      by (auto simp: parse_list_items.simps parse_errors_def create_parse_success_def
          split: if_splits)
  qed
qed

text \<open>
  C7. The claim: \<open>parse\<close> returns the error "Unmatched '(' in input" when the end of the
  input is reached inside an open list. Lines 216--221 return that error when the list loop
  finds NUL at its cursor, but the loop (line 203) tests the byte at the cursor before any
  whitespace is skipped. When whitespace stands between the last child (or the \<open>(\<close>) and
  the end of the input, the loop calls \<open>parse\<close> once more, which skips the whitespace and
  returns "Unexpected end of input". A line read by \<open>fgets\<close> ends with a newline: the
  line \<open>(+ 1 2\<close> with its newline gets "Unexpected end of input", and the same text without
  the newline gets "Unmatched '(' in input".
\<close>

theorem parse_unclosed_list_before_whitespace:
  "parse (''(+ 1 2'' @ [CHR 0x0A]) 0 = Some (Parse_error ''Unexpected end of input'', 7)
   \<and> Parse_error ''Unexpected end of input'' \<noteq> create_parse_error ''Unmatched '(' in input''
   \<and> parse ''(+ 1 2'' 0 = Some (create_parse_error ''Unmatched '(' in input'', 6)"
  by (simp add: loop_simps parse_defs char_defs)

subsection \<open>C8: the cursor after a symbol at the end of the input\<close>

text \<open>
  Where \<open>parse\<close> returns, with a node or with an error, the cursor has not moved back
  and stands inside the input or on its terminator.
\<close>

lemma parse_digits_stops:
  "parse_digits input pos v = Some (v', p) \<Longrightarrow> \<exists>c. char_at input p = Some c \<and> \<not> is_digit c"
proof (induction input pos v rule: parse_digits.induct)
  case (1 input pos v)
  show ?case
  proof (cases "char_at input pos")
    case None
    with 1 show ?thesis by (simp add: parse_digits_None)
  next
    case (Some c)
    show ?thesis
    proof (cases "is_digit c")
      case True
      with 1 Some show ?thesis by (simp add: parse_digits_step)
    next
      case False
      with 1 Some show ?thesis by (auto simp: parse_digits_stop)
    qed
  qed
qed

lemma parse_cursor_bounds:
  "parse input pos = Some (r, p) \<Longrightarrow> pos \<le> p \<and> p \<le> length input"
  "parse_list_items input pos items = Some (r, p) \<Longrightarrow> pos \<le> p \<and> p \<le> length input"
proof (induction input pos and input pos items arbitrary: r p and r p
    rule: parse_parse_list_items.induct)
  case (1 input pos0)
  from "1.prems" obtain pos where sk: "skip_whitespace input pos0 = Some pos"
    by (auto simp: parse.simps split: option.splits)
  from "1.prems" sk obtain c where c: "char_at input pos = Some c"
    by (auto simp: parse.simps split: option.splits)
  note le0 = skip_whitespace_le [OF sk]
  have "pos \<le> p \<and> p \<le> length input"
  proof (cases "c = CHR ''(''")
    case True
    with "1.prems" sk c have "parse_list_items input (Suc pos) [] = Some (r, p)"
      by (simp add: parse.simps)
    from "1.IH" [OF sk c True this] show ?thesis by simp
  next
    case False
    with "1.prems" sk c show ?thesis
      by (auto simp: parse.simps symbol_char_def Suc_le_eq
          split: if_splits option.splits
          dest: parse_digits_le scan_string_le scan_symbol_le
            parse_digits_stops scan_symbol_stops char_at_Some_le char_at_not_NUL_less)
  qed
  with le0 show ?case by simp
next
  case (2 input pos items)
  from "2.prems" obtain c where c: "char_at input pos = Some c"
    by (auto simp: parse_list_items.simps split: option.splits)
  show ?case
  proof (cases "c \<noteq> CHR '')'' \<and> c \<noteq> CHR 0x00")
    case True
    with "2.prems" c obtain sub_result pos' where
      sub: "parse input pos = Some (sub_result, pos')"
      by (auto simp: parse_list_items.simps split: option.splits)
    from "2.IH"(1) [OF c True sub] have le: "pos \<le> pos'" and le': "pos' \<le> length input"
      by simp_all
    show ?thesis
    proof (cases sub_result)
      case (Parse_error m)
      with "2.prems" c True sub have "pos' = p"
        by (simp add: parse_list_items.simps)
      with le le' show ?thesis by simp
    next
      case (Parse_node child)
      with "2.prems" c True sub
      have "parse_list_items input pos' (items @ [child]) = Some (r, p)"
        by (simp add: parse_list_items.simps)
      from "2.IH"(2) [OF c True sub refl Parse_node this] le show ?thesis by simp
    qed
  next
    case False
    with "2.prems" c show ?thesis
      by (auto simp: parse_list_items.simps Suc_le_eq split: if_splits
          dest: char_at_Some_le char_at_not_NUL_less)
  qed
qed

text \<open>
  C8. The claim: the cursor never moves past the end of the input. The symbol loop
  (lines 247--250) has no test for NUL, unlike the string loop (line 236) and the list
  loop (line 203). On the input \<open>x\<close> the byte at index 1 is the terminator, which the
  loop accepts; the cursor moves to 2, past the end of the input, and the next read is
  outside the string (\<open>None\<close>). In a buffer that holds older bytes after the terminator
  (a line buffer that is used again), the same call succeeds with the cursor at 2 while
  the length of the input is 1.
\<close>

theorem parse_symbol_at_end_of_input:
  "char_at ''x'' 1 = Some (CHR 0x00) \<and> symbol_char (CHR 0x00) \<and> char_at ''x'' 2 = None
   \<and> parse ''x'' 0 = None
   \<and> parse [CHR ''x'', CHR 0x00, CHR '' ''] 0 = Some (Parse_node (Node_symbol ''x''), 2)
   \<and> strlen [CHR ''x'', CHR 0x00, CHR '' ''] = 1"
  by (simp add: loop_simps parse_defs char_defs strlen_def)

end
